theory Spec2Isabelle
  imports Main "HOL-Library.Word"
begin

section \<open>Common data: bytes, exceptions\<close>

type_synonym bytes = "8 word list"

text \<open>
  The exceptions that the modelled code raises or lets through. In Python 3 the name
  \<open>IOError\<close> is an alias of \<open>OSError\<close>, and \<open>FileNotFoundError\<close>,
  \<open>NotADirectoryError\<close>, \<open>FileExistsError\<close> and \<open>IsADirectoryError\<close> are its
  subclasses; \<open>is_IOError\<close> is the test \<open>isinstance(e, IOError)\<close>.
  \<open>Failure\<close> stands for an exception of a collaborator that is opaque here (the
  processing operation, the network).
\<close>

datatype exn =
    FileNotFoundError
  | NotADirectoryError
  | FileExistsError
  | IsADirectoryError
  | IOError
  | AttributeError
  | NoResultFound
  | Failure string


section \<open>storage\_backends.py: the remote (GCS) backend\<close>

text \<open>\<open>filepath.lstrip("/")\<close>: every leading slash is removed.\<close>

definition lstrip_slash :: "string \<Rightarrow> string" where
  "lstrip_slash filepath = dropWhile (\<lambda>c. c = CHR ''/'') filepath"

text \<open>
  The bucket is a map from blob names to contents. \<open>save\<close> accepts bytes or a
  file-like object (\<open>isinstance(data, bytes)\<close>); both branches upload the content.
\<close>

type_synonym bucket = "string \<rightharpoonup> bytes"

datatype payload = Bytes bytes | FileLike bytes

fun content :: "payload \<Rightarrow> bytes" where
  "content (Bytes b) = b"
| "content (FileLike b) = b"

text \<open>\<open>blob.exists()\<close> and \<open>blob.download_as_bytes()\<close> of the client library.\<close>

definition blob_exists :: "bucket \<Rightarrow> string \<Rightarrow> bool" where
  "blob_exists bkt blob_name = (case bkt blob_name of None \<Rightarrow> False | Some d \<Rightarrow> True)"

definition download_as_bytes :: "bucket \<Rightarrow> string \<Rightarrow> exn + bytes" where
  "download_as_bytes bkt blob_name =
     (case bkt blob_name of None \<Rightarrow> Inl (Failure ''NotFound'') | Some d \<Rightarrow> Inr d)"

definition gcs_read :: "bucket \<Rightarrow> string \<Rightarrow> exn + bytes" where
  "gcs_read bkt filepath =
     (let blob_name = lstrip_slash filepath in
      if \<not> blob_exists bkt blob_name then Inl FileNotFoundError
      else download_as_bytes bkt blob_name)"

definition gcs_exists :: "bucket \<Rightarrow> string \<Rightarrow> bool" where
  "gcs_exists bkt filepath =
     (let blob_name = lstrip_slash filepath in blob_exists bkt blob_name)"

definition gcs_save :: "bucket \<Rightarrow> string \<Rightarrow> payload \<Rightarrow> bucket" where
  "gcs_save bkt filepath data =
     (let blob_name = lstrip_slash filepath in
      case data of
        Bytes b \<Rightarrow> bkt(blob_name \<mapsto> b)
      | FileLike b \<Rightarrow> bkt(blob_name \<mapsto> b))"

text \<open>
  \<open>blob.generate_signed_url\<close> belongs to the client library; it is the parameter
  \<open>sign\<close>, applied to the blob name and the expiration (in seconds).
\<close>

definition gcs_get_signed_url :: "(string \<Rightarrow> nat \<Rightarrow> 'u) \<Rightarrow> string \<Rightarrow> nat \<Rightarrow> 'u" where
  "gcs_get_signed_url sign filepath expiration =
     (let blob_name = lstrip_slash filepath in sign blob_name expiration)"

definition gcs_delete :: "bucket \<Rightarrow> string \<Rightarrow> bucket" where
  "gcs_delete bkt filepath =
     (let blob_name = lstrip_slash filepath in
      if blob_exists bkt blob_name then bkt(blob_name := None) else bkt)"

section \<open>storage\_backends.py: the local filesystem backend\<close>

text \<open>
  The local file tree, as far as \<open>os.path.exists\<close>, \<open>os.path.isdir\<close>,
  \<open>os.makedirs\<close> and \<open>open\<close> look at it: a map from component lists to nodes;
  the empty component list is the root directory, from which every path is resolved
  (the working directory is the root). Symbolic links, permissions and the special
  names \<open>.\<close> and \<open>..\<close> are outside the model.
\<close>

datatype node = File bytes | Dir

type_synonym fs = "string list \<rightharpoonup> node"

datatype errno = ENOENT | ENOTDIR | EEXIST | EISDIR


fun split_slash :: "string \<Rightarrow> string list" where
  "split_slash [] = [[]]"
| "split_slash (c # cs) =
     (if c = CHR ''/'' then [] # split_slash cs
      else (case split_slash cs of
              [] \<Rightarrow> [[c]]
            | w # ws \<Rightarrow> (c # w) # ws))"

definition components :: "string \<Rightarrow> string list" where
  "components p = filter (\<lambda>w. w \<noteq> []) (split_slash p)"



definition lookup :: "fs \<Rightarrow> string list \<Rightarrow> node option" where
  "lookup t cs = (if cs = [] then Some Dir else t cs)"

text \<open>
  Path resolution: \<open>walk t cur cs\<close> resolves the components \<open>cs\<close> from the node at
  \<open>cur\<close>; a component can only be looked up in a directory.
\<close>

fun walk :: "fs \<Rightarrow> string list \<Rightarrow> string list \<Rightarrow> errno + node" where
  "walk t cur [] = (case lookup t cur of None \<Rightarrow> Inl ENOENT | Some n \<Rightarrow> Inr n)"
| "walk t cur (c # cs) =
     (case lookup t cur of
        None \<Rightarrow> Inl ENOENT
      | Some (File d) \<Rightarrow> Inl ENOTDIR
      | Some Dir \<Rightarrow> walk t (cur @ [c]) cs)"

definition os_stat :: "fs \<Rightarrow> string \<Rightarrow> errno + node" where
  "os_stat t p =
     (if p = [] then Inl ENOENT
      else (case walk t [] (components p) of
              Inr (File d) \<Rightarrow> if last p = CHR ''/'' then Inl ENOTDIR else Inr (File d)
            | r \<Rightarrow> r))"

definition os_path_exists :: "fs \<Rightarrow> string \<Rightarrow> bool" where
  "os_path_exists t p = (case os_stat t p of Inl e \<Rightarrow> False | Inr n \<Rightarrow> True)"







definition fs_exists :: "fs \<Rightarrow> string \<Rightarrow> bool" where
  "fs_exists t filepath = os_path_exists t filepath"





text \<open>
  The two backends behind one handle. \<open>FilesystemStorageBackend\<close> defines \<open>read\<close>,
  \<open>exists\<close> and \<open>save\<close> only, and so does its base class: looking \<open>delete\<close> up on it
  raises \<open>AttributeError\<close>. \<open>GCSStorageBackend\<close> adds \<open>delete\<close>.
\<close>

datatype backend = FilesystemStorageBackend fs | GCSStorageBackend bucket

fun backend_delete :: "backend \<Rightarrow> string \<Rightarrow> exn + backend" where
  "backend_delete (FilesystemStorageBackend t) filepath = Inl AttributeError"
| "backend_delete (GCSStorageBackend bkt) filepath = Inr (GCSStorageBackend (gcs_delete bkt filepath))"

fun backend_exists :: "backend \<Rightarrow> string \<Rightarrow> bool" where
  "backend_exists (FilesystemStorageBackend t) filepath = fs_exists t filepath"
| "backend_exists (GCSStorageBackend bkt) filepath = gcs_exists bkt filepath"

section \<open>worker.py: the job store, the queue and the worker\<close>

datatype Status = UPLOADING | PROCESSING | FINISHED | ERROR

text \<open>
  A row of the \<open>Task\<close> table; the job id is the key of the store. The table's
  declaration (\<open>sorawm.server.models\<close>) is not among the sources.
\<close>

record Task =
  video_path :: string
  status :: Status
  percentage :: int
  output_path :: "string option"
  download_url :: "string option"

record WMRemoveResults =
  res_percentage :: int
  res_status :: Status
  res_download_url :: "string option"

text \<open>The configuration the worker reads (\<open>configs.py\<close>) and the directories it derives.\<close>

record config =
  use_gcs :: bool
  upload_dir :: string
  output_dir :: string
  GCS_UPLOADS_PREFIX :: string
  GCS_OUTPUTS_PREFIX :: string

text \<open>
  What the worker acts on: the job store (every \<open>async with get_session()\<close> block is
  one atomic update of it, committed at its end), the queue, the bucket and the local
  files.
\<close>

record wstate =
  tasks :: "string \<rightharpoonup> Task"
  queue :: "(string \<times> string) list"
  gcs :: bucket
  files :: "string \<rightharpoonup> bytes"

text \<open>
  A \<open>Path\<close> is carried as its string, \<open>str(Path(p))\<close>: repeated slashes and the
  segments \<open>.\<close> are dropped, a trailing slash is dropped, exactly two leading slashes
  are kept, and the empty path is \<open>.\<close>. Then \<open>Path.name\<close>, \<open>Path.suffix\<close> and the
  \<open>/\<close> operator of \<open>pathlib\<close>.
\<close>

fun join_slash :: "string list \<Rightarrow> string" where
  "join_slash [] = []"
| "join_slash [w] = w"
| "join_slash (w # v # ws) = w @ ''/'' @ join_slash (v # ws)"

definition py_path :: "string \<Rightarrow> string" where
  "py_path p =
     (let parts = filter (\<lambda>w. w \<noteq> [] \<and> w \<noteq> ''.'') (split_slash p);
          root = (if take 2 p = ''//'' \<and> take 3 p \<noteq> ''///'' then ''//''
                  else if take 1 p = ''/'' then ''/'' else [])
      in if root = [] \<and> parts = [] then ''.'' else root @ join_slash parts)"

definition path_name :: "string \<Rightarrow> string" where
  "path_name p = rev (takeWhile (\<lambda>c. c \<noteq> CHR ''/'') (rev p))"

definition path_suffix :: "string \<Rightarrow> string" where
  "path_suffix p =
     (let name = path_name p;
          ext = rev (takeWhile (\<lambda>c. c \<noteq> CHR ''.'') (rev name))
      in if CHR ''.'' \<in> set name \<and> ext \<noteq> [] \<and> length ext + 1 < length name
         then CHR ''.'' # ext else [])"

definition path_join :: "string \<Rightarrow> string \<Rightarrow> string" where
  "path_join d n = py_path (if n \<noteq> [] \<and> hd n = CHR ''/'' then n else d @ ''/'' @ n)"

text \<open>
  Modelled from the spec: the columns \<open>output_path\<close> and \<open>download_url\<close> of a new
  row, which the missing table declaration decides, are null (the output location is
  ``set only on successful completion; absent/null otherwise''). The rest is
  \<open>create_task\<close> as written; the id is the fresh \<open>uuid4\<close>.
\<close>

definition create_task :: "string \<Rightarrow> wstate \<Rightarrow> wstate" where
  "create_task task_uuid s =
     s\<lparr>tasks := (tasks s)(task_uuid \<mapsto>
          \<lparr>video_path = [], status = UPLOADING, percentage = 0,
           output_path = None, download_url = None\<rparr>)\<rparr>"

text \<open>
  \<open>queue_task\<close>: the state after the call and the exception that leaves it, if any
  (\<open>open\<close> of a missing file, \<open>scalar_one()\<close> on a missing row). \<open>vpath\<close> is the
  string of the \<open>Path\<close> passed in.
\<close>

definition queue_task :: "config \<Rightarrow> string \<Rightarrow> string \<Rightarrow> wstate \<Rightarrow> wstate \<times> exn option" where
  "queue_task cfg task_id vpath s =
     (let (s1, storage_path, r1) =
            (if use_gcs cfg then
               (let gcs_path = GCS_UPLOADS_PREFIX cfg @ ''/'' @ task_id @ ''_'' @ path_name vpath in
                case files s vpath of
                  None \<Rightarrow> (s, py_path gcs_path, Some FileNotFoundError)
                | Some d \<Rightarrow>
                    (s\<lparr>gcs := gcs_save (gcs s) gcs_path (Bytes d)\<rparr>, py_path gcs_path, None))
             else (s, vpath, None))
      in case r1 of
           Some e \<Rightarrow> (s1, Some e)
         | None \<Rightarrow>
             (case tasks s1 task_id of
                None \<Rightarrow> (s1, Some NoResultFound)
              | Some task \<Rightarrow>
                  (s1\<lparr>tasks := (tasks s1)(task_id \<mapsto>
                         task\<lparr>video_path := storage_path, status := PROCESSING, percentage := 0\<rparr>),
                      queue := queue s1 @ [(task_id, storage_path)]\<rparr>, None)))"

definition mark_task_error :: "string \<Rightarrow> string \<Rightarrow> wstate \<Rightarrow> wstate" where
  "mark_task_error task_id error_msg s =
     (case tasks s task_id of
        None \<Rightarrow> s
      | Some task \<Rightarrow> s\<lparr>tasks := (tasks s)(task_id \<mapsto> task\<lparr>status := ERROR, percentage := 0\<rparr>)\<rparr>)"

text \<open>
  \<open>_update_progress\<close>. \<open>fails\<close> says that something inside its \<open>try\<close> raises (the
  session, the query, the commit): the \<open>except Exception\<close> logs it, the session is
  not committed, and the call returns normally.
\<close>

definition update_progress :: "bool \<Rightarrow> string \<Rightarrow> int \<Rightarrow> wstate \<Rightarrow> wstate" where
  "update_progress fails task_id pct s =
     (if fails then s
      else (case tasks s task_id of
              None \<Rightarrow> s
            | Some task \<Rightarrow> s\<lparr>tasks := (tasks s)(task_id \<mapsto> task\<lparr>percentage := pct\<rparr>)\<rparr>))"

text \<open>
  \<open>progress_callback\<close> (lines 135--138) runs in the thread of the processing
  operation and has no \<open>try\<close>: what \<open>run_coroutine_threadsafe\<close> raises (a
  \<open>RuntimeError\<close> when the loop is closed) is raised to its caller, the processing
  operation. When it raises nothing it has only scheduled the update: the result is
  whether the call raises, and the update commits later, on the loop.
\<close>

definition progress_callback :: "exn option \<Rightarrow> exn option" where
  "progress_callback marshal_fault =
     (case marshal_fault of
        Some e \<Rightarrow> Some e
      | None \<Rightarrow> None)"

text \<open>
  \<open>get_download_url\<close>, \<open>get_task_status\<close>, \<open>get_output_path\<close>. \<open>sign\<close> is the
  client library's signing, which may raise; one hour is 3600 seconds.
\<close>

definition get_download_url ::
  "config \<Rightarrow> (string \<Rightarrow> nat \<Rightarrow> exn + string) \<Rightarrow> string \<Rightarrow> wstate \<Rightarrow> string option" where
  "get_download_url cfg sign task_id s =
     (case tasks s task_id of
        None \<Rightarrow> None
      | Some task \<Rightarrow>
          (case output_path task of
             None \<Rightarrow> None
           | Some out \<Rightarrow>
               if use_gcs cfg then
                 (case gcs_get_signed_url sign out 3600 of
                    Inr signed_url \<Rightarrow> Some signed_url
                  | Inl e \<Rightarrow> None)
               else Some (''/download/'' @ task_id)))"

definition get_task_status ::
  "config \<Rightarrow> (string \<Rightarrow> nat \<Rightarrow> exn + string) \<Rightarrow> string \<Rightarrow> wstate \<Rightarrow> WMRemoveResults option" where
  "get_task_status cfg sign task_id s =
     (case tasks s task_id of
        None \<Rightarrow> None
      | Some task \<Rightarrow>
          (let url =
                 (if status task = FINISHED \<and> output_path task \<noteq> None \<and> output_path task \<noteq> Some []
                  then (if use_gcs cfg then get_download_url cfg sign task_id s
                        else download_url task)
                  else None)
           in Some \<lparr>res_percentage = percentage task, res_status = status task,
                    res_download_url = url\<rparr>))"

definition get_output_path :: "string \<Rightarrow> wstate \<Rightarrow> string option" where
  "get_output_path task_id s =
     (case tasks s task_id of
        None \<Rightarrow> None
      | Some task \<Rightarrow>
          (case output_path task of
             None \<Rightarrow> None
           | Some out \<Rightarrow> Some (py_path out)))"

subsection \<open>One pass of the worker loop\<close>

text \<open>
  What the surroundings decide during one job: the clock; the progress updates that
  commit before the processing operation returns, in the order in which they commit
  (each with whether it fails), and those that commit only after the last session block
  of the pass (every report is a coroutine of its own that nobody awaits, so neither
  the order of the reports nor the end of the pass binds them); what the operation
  leaves at the output path and whether it raises; and the faults of the calls that the
  state does not determine: storage read and save, \<open>write_bytes\<close>, \<open>Path.exists\<close>
  (it re-raises an \<open>OSError\<close> such as a name that is too long), \<open>unlink\<close>, and
  the session block that writes a given status.
\<close>

record env =
  now :: string
  read_fault :: "exn option"
  write_fault :: "exn option"
  reports :: "(int \<times> bool) list"
  late_reports :: "(int \<times> bool) list"
  proc_output :: "bytes option"
  proc_fault :: "exn option"
  save_fault :: "exn option"
  exists_fault :: "string \<Rightarrow> exn option"
  unlink_fault :: "string \<Rightarrow> exn option"
  session_fault :: "Status \<Rightarrow> exn option"

text \<open>The local variables of \<open>run\<close> that outlive the \<open>try\<close> block.\<close>

record locals =
  task_uuid :: string
  job_path :: string
  local_input_path :: "string option"
  local_output_path :: "string option"
  output_filename :: string

text \<open>
  The session blocks of \<open>run\<close> have one shape: open the session, fetch the row with
  \<open>scalar_one()\<close>, which raises when there is none, assign fields, commit. A fault of
  the store leaves the row as it was.
\<close>

definition session_update ::
  "exn option \<Rightarrow> string \<Rightarrow> (Task \<Rightarrow> Task) \<Rightarrow> wstate \<Rightarrow> wstate \<times> exn option" where
  "session_update fault uuid assign s =
     (case fault of
        Some e \<Rightarrow> (s, Some e)
      | None \<Rightarrow>
          (case tasks s uuid of
             None \<Rightarrow> (s, Some NoResultFound)
           | Some task \<Rightarrow> (s\<lparr>tasks := (tasks s)(uuid \<mapsto> assign task)\<rparr>, None)))"

definition mark_processing :: "env \<Rightarrow> string \<Rightarrow> wstate \<Rightarrow> wstate \<times> exn option" where
  "mark_processing ev uuid s =
     session_update (session_fault ev PROCESSING) uuid
       (\<lambda>task. task\<lparr>status := PROCESSING, percentage := 10\<rparr>) s"

definition mark_finished :: "env \<Rightarrow> string \<Rightarrow> string \<Rightarrow> wstate \<Rightarrow> wstate \<times> exn option" where
  "mark_finished ev uuid final_output_path s =
     session_update (session_fault ev FINISHED) uuid
       (\<lambda>task. task\<lparr>status := FINISHED, percentage := 100,
                    output_path := Some final_output_path,
                    download_url := Some (''/download/'' @ uuid)\<rparr>) s"

definition mark_error :: "env \<Rightarrow> string \<Rightarrow> wstate \<Rightarrow> wstate \<times> exn option" where
  "mark_error ev uuid s =
     session_update (session_fault ev ERROR) uuid
       (\<lambda>task. task\<lparr>status := ERROR, percentage := 0\<rparr>) s"

text \<open>Lines 109--118 of \<open>run\<close>: the input is downloaded to a local temporary file.\<close>

definition download_input ::
  "config \<Rightarrow> env \<Rightarrow> string \<times> string \<Rightarrow> wstate \<Rightarrow> wstate \<times> locals \<times> exn option" where
  "download_input cfg ev job s =
     (let uuid = fst job; vpath = snd job;
          l0 = \<lparr>task_uuid = uuid, job_path = vpath, local_input_path = None,
                local_output_path = None, output_filename = []\<rparr>
      in if use_gcs cfg then
           (let lin = path_join (upload_dir cfg) (''temp_'' @ uuid @ path_suffix vpath);
                l = l0\<lparr>local_input_path := Some lin\<rparr>
            in case read_fault ev of
                 Some e \<Rightarrow> (s, l, Some e)
               | None \<Rightarrow>
                   (case gcs_read (gcs s) vpath of
                      Inl e \<Rightarrow> (s, l, Some e)
                    | Inr video_data \<Rightarrow>
                        (case write_fault ev of
                           Some e \<Rightarrow> (s, l, Some e)
                         | None \<Rightarrow> (s\<lparr>files := (files s)(lin \<mapsto> video_data)\<rparr>, l, None))))
         else (s, l0\<lparr>local_input_path := Some vpath\<rparr>, None))"

text \<open>Lines 108--131: staging the input, naming the output, marking the job \<open>PROCESSING\<close>.\<close>

definition stage_in ::
  "config \<Rightarrow> env \<Rightarrow> string \<times> string \<Rightarrow> wstate \<Rightarrow> wstate \<times> locals \<times> exn option" where
  "stage_in cfg ev job s =
     (case download_input cfg ev job s of
        (s1, l1, Some e) \<Rightarrow> (s1, l1, Some e)
      | (s1, l1, None) \<Rightarrow>
          (let fname = fst job @ ''_'' @ now ev @ path_suffix (snd job);
               l2 = l1\<lparr>output_filename := fname,
                       local_output_path := Some (path_join (output_dir cfg) fname)\<rparr>
           in case mark_processing ev (fst job) s1 of (s2, r) \<Rightarrow> (s2, l2, r)))"

text \<open>A run of progress updates of one job, in the order in which they commit.\<close>

definition apply_reports :: "string \<Rightarrow> (int \<times> bool) list \<Rightarrow> wstate \<Rightarrow> wstate" where
  "apply_reports uuid rs s = foldl (\<lambda>s' r. update_progress (snd r) uuid (fst r) s') s rs"

text \<open>\<open>Path.exists()\<close> on a local path: it may raise instead of answering.\<close>

definition path_exists :: "env \<Rightarrow> string \<Rightarrow> wstate \<Rightarrow> exn + bool" where
  "path_exists ev p s =
     (case exists_fault ev p of
        Some e \<Rightarrow> Inl e
      | None \<Rightarrow> Inr (case files s p of None \<Rightarrow> False | Some d \<Rightarrow> True))"

text \<open>
  \<open>if path and path.exists(): path.unlink()\<close> as the \<open>try\<close> block has it (lines
  157--160): whatever it raises goes on.
\<close>

definition unlink_if_exists :: "env \<Rightarrow> string option \<Rightarrow> wstate \<Rightarrow> wstate \<times> exn option" where
  "unlink_if_exists ev path s =
     (case path of
        None \<Rightarrow> (s, None)
      | Some p \<Rightarrow>
          (case path_exists ev p s of
             Inl e \<Rightarrow> (s, Some e)
           | Inr ex \<Rightarrow>
               if \<not> ex then (s, None)
               else (case unlink_fault ev p of
                       Some e \<Rightarrow> (s, Some e)
                     | None \<Rightarrow> (s\<lparr>files := (files s)(p := None)\<rparr>, None))))"

text \<open>
  The same as the handler has it (lines 183--192): the \<open>try\<close> is around \<open>unlink\<close>
  only, so a failing \<open>unlink\<close> is logged, and a raising \<open>exists()\<close> goes on.
\<close>

definition unlink_logged :: "env \<Rightarrow> string option \<Rightarrow> wstate \<Rightarrow> wstate \<times> exn option" where
  "unlink_logged ev path s =
     (case path of
        None \<Rightarrow> (s, None)
      | Some p \<Rightarrow>
          (case path_exists ev p s of
             Inl e \<Rightarrow> (s, Some e)
           | Inr ex \<Rightarrow>
               if \<not> ex then (s, None)
               else (case unlink_fault ev p of
                       Some e \<Rightarrow> (s, None)
                     | None \<Rightarrow> (s\<lparr>files := (files s)(p := None)\<rparr>, None))))"

text \<open>
  Lines 141--143: the processing operation leaves what it leaves at the output path and
  returns or raises.
\<close>

definition run_processing :: "env \<Rightarrow> locals \<Rightarrow> wstate \<Rightarrow> wstate \<times> exn option" where
  "run_processing ev l s =
     (let s1 = (case proc_output ev of
                  None \<Rightarrow> s
                | Some d \<Rightarrow>
                    (case local_output_path l of
                       None \<Rightarrow> s
                     | Some lout \<Rightarrow> s\<lparr>files := (files s)(lout \<mapsto> d)\<rparr>))
      in (s1, proc_fault ev))"

text \<open>
  Lines 146--162: with the remote backend the output is read, uploaded, and both local
  files are removed; the result is the final output path.
\<close>

definition upload_output :: "config \<Rightarrow> env \<Rightarrow> locals \<Rightarrow> wstate \<Rightarrow> wstate \<times> string \<times> exn option" where
  "upload_output cfg ev l s =
     (if use_gcs cfg then
        (let gcs_output_path = GCS_OUTPUTS_PREFIX cfg @ ''/'' @ output_filename l in
         case (case local_output_path l of None \<Rightarrow> None | Some lout \<Rightarrow> files s lout) of
           None \<Rightarrow> (s, gcs_output_path, Some FileNotFoundError)
         | Some d \<Rightarrow>
             (case save_fault ev of
                Some e \<Rightarrow> (s, gcs_output_path, Some e)
              | None \<Rightarrow>
                  (let sa = s\<lparr>gcs := gcs_save (gcs s) gcs_output_path (Bytes d)\<rparr> in
                   case unlink_if_exists ev (local_input_path l) sa of
                     (sb, Some e) \<Rightarrow> (sb, gcs_output_path, Some e)
                   | (sb, None) \<Rightarrow>
                       (case unlink_if_exists ev (local_output_path l) sb of
                          (sc, r) \<Rightarrow> (sc, gcs_output_path, r)))))
      else (s, (case local_output_path l of None \<Rightarrow> ''None'' | Some lout \<Rightarrow> lout), None))"

text \<open>Lines 141--172: processing, staging the output, marking the job \<open>FINISHED\<close>.\<close>

definition process_and_stage_out :: "config \<Rightarrow> env \<Rightarrow> locals \<Rightarrow> wstate \<Rightarrow> wstate \<times> exn option" where
  "process_and_stage_out cfg ev l s =
     (case run_processing ev l s of
        (s1, Some e) \<Rightarrow> (s1, Some e)
      | (s1, None) \<Rightarrow>
          (case upload_output cfg ev l s1 of
             (s2, final_output_path, Some e) \<Rightarrow> (s2, Some e)
           | (s2, final_output_path, None) \<Rightarrow>
               mark_finished ev (task_uuid l) final_output_path s2))"

text \<open>
  Lines 178--200, the \<open>except Exception\<close> branch: the temporary files are removed,
  then the job is marked \<open>ERROR\<close>. What \<open>exists()\<close> or the session block raises
  leaves the branch, and with it \<open>run\<close>.
\<close>

definition cleanup_on_error :: "config \<Rightarrow> env \<Rightarrow> locals \<Rightarrow> wstate \<Rightarrow> wstate \<times> exn option" where
  "cleanup_on_error cfg ev l s =
     (if use_gcs cfg then
        (case unlink_logged ev (local_input_path l) s of
           (s1, Some e) \<Rightarrow> (s1, Some e)
         | (s1, None) \<Rightarrow> unlink_logged ev (local_output_path l) s1)
      else (s, None))"

definition handle_error :: "config \<Rightarrow> env \<Rightarrow> locals \<Rightarrow> wstate \<Rightarrow> wstate \<times> exn option" where
  "handle_error cfg ev l s =
     (case cleanup_on_error cfg ev l s of
        (s1, Some e) \<Rightarrow> (s1, Some e)
      | (s1, None) \<Rightarrow> mark_error ev (task_uuid l) s1)"

text \<open>
  The \<open>try\<close> block for one dequeued job, and the whole pass: the block, the handler
  when the block raises, and the progress updates that commit after them.
\<close>

definition try_body :: "config \<Rightarrow> env \<Rightarrow> string \<times> string \<Rightarrow> wstate \<Rightarrow> wstate \<times> locals \<times> exn option" where
  "try_body cfg ev job s =
     (case stage_in cfg ev job s of
        (s1, l, Some e) \<Rightarrow> (s1, l, Some e)
      | (s1, l, None) \<Rightarrow>
          (case process_and_stage_out cfg ev l (apply_reports (task_uuid l) (reports ev) s1) of
             (s2, r) \<Rightarrow> (s2, l, r)))"

definition run_job :: "config \<Rightarrow> env \<Rightarrow> string \<times> string \<Rightarrow> wstate \<Rightarrow> wstate \<times> exn option" where
  "run_job cfg ev job s =
     (case (case try_body cfg ev job s of
              (s1, l, None) \<Rightarrow> (s1, None)
            | (s1, l, Some e) \<Rightarrow> handle_error cfg ev l s1) of
        (s2, r) \<Rightarrow> (apply_reports (fst job) (late_reports ev) s2, r))"

text \<open>
  One pass of \<open>while True\<close>: \<open>queue.get()\<close> takes the head (on an empty queue the
  worker stays suspended). The loop itself runs as long as an exception does not leave
  \<open>run\<close>; it is given one \<open>env\<close> per job.
\<close>

definition run_iteration :: "config \<Rightarrow> env \<Rightarrow> wstate \<Rightarrow> wstate \<times> exn option" where
  "run_iteration cfg ev s =
     (case queue s of
        [] \<Rightarrow> (s, None)
      | job # rest \<Rightarrow> run_job cfg ev job (s\<lparr>queue := rest\<rparr>))"

fun run :: "config \<Rightarrow> env list \<Rightarrow> wstate \<Rightarrow> wstate \<times> exn option" where
  "run cfg [] s = (s, None)"
| "run cfg (ev # evs) s =
     (if queue s = [] then (s, None)
      else (case run_iteration cfg ev s of
              (s', Some e) \<Rightarrow> (s', Some e)
            | (s', None) \<Rightarrow> run cfg evs s'))"

subsection \<open>The states the system can be in\<close>

text \<open>
  The stored percentages that a run of progress updates of one job leaves behind, the
  updates taken in the order in which they commit: one entry for each update that is
  applied (it does not fail and the job has a row).
\<close>

fun progress_trace :: "string \<Rightarrow> (int \<times> bool) list \<Rightarrow> wstate \<Rightarrow> int list" where
  "progress_trace uuid [] s = []"
| "progress_trace uuid (r # rs) s =
     (let s' = update_progress (snd r) uuid (fst r) s in
      (if snd r then []
       else (case tasks s' uuid of None \<Rightarrow> [] | Some task \<Rightarrow> [percentage task]))
      @ progress_trace uuid rs s')"

text \<open>
  The states reachable from an empty job store, each with the set of the jobs that the
  worker has dequeued so far. The coroutines interleave at their \<open>await\<close>s, so the
  worker's pass is cut where it suspends: after staging the input, and at its end
  (finishing or handling the error). The public methods \<open>create_task\<close>,
  \<open>queue_task\<close> and \<open>mark_task_error\<close> may be called at any time with any
  argument (their callers are not among the sources); \<open>_update_progress\<close> is called
  through the callback of a pass only, so for a dequeued job, at any time from then on;
  the pieces of a pass run for a dequeued job; and the local files may change under the
  worker (uploads are written by the HTTP layer). The relation contains every state
  the program can reach, so what holds for all reachable states holds for the program.
\<close>

inductive reachable :: "config \<Rightarrow> string set \<Rightarrow> wstate \<Rightarrow> bool" for cfg :: config where
  r_init: "reachable cfg {} \<lparr>tasks = Map.empty, queue = [], gcs = b, files = f\<rparr>"
| r_create: "reachable cfg D s \<Longrightarrow> tasks s u = None \<Longrightarrow> reachable cfg D (create_task u s)"
| r_queue: "reachable cfg D s \<Longrightarrow> reachable cfg D (fst (queue_task cfg i p s))"
| r_mark: "reachable cfg D s \<Longrightarrow> reachable cfg D (mark_task_error i m s)"
| r_files: "reachable cfg D s \<Longrightarrow> reachable cfg D (s\<lparr>files := f\<rparr>)"
| r_dequeue: "reachable cfg D s \<Longrightarrow> queue s = job # rest \<Longrightarrow>
     reachable cfg (insert (fst job) D) (fst (stage_in cfg ev job (s\<lparr>queue := rest\<rparr>)))"
| r_progress: "reachable cfg D s \<Longrightarrow> i \<in> D \<Longrightarrow> reachable cfg D (update_progress fl i pct s)"
| r_process: "reachable cfg D s \<Longrightarrow> task_uuid l \<in> D \<Longrightarrow>
     reachable cfg D (fst (process_and_stage_out cfg ev l s))"
| r_handle: "reachable cfg D s \<Longrightarrow> task_uuid l \<in> D \<Longrightarrow>
     reachable cfg D (fst (handle_error cfg ev l s))"

subsection \<open>Example configurations, states and surroundings\<close>

definition ex_local :: config where
  "ex_local = \<lparr>use_gcs = False, upload_dir = ''w/uploads'', output_dir = ''w'',
                GCS_UPLOADS_PREFIX = ''uploads'', GCS_OUTPUTS_PREFIX = ''outputs''\<rparr>"

definition ex_remote :: config where
  "ex_remote = \<lparr>use_gcs = True, upload_dir = ''w/uploads'', output_dir = ''w'',
                 GCS_UPLOADS_PREFIX = ''uploads'', GCS_OUTPUTS_PREFIX = ''outputs''\<rparr>"

definition ex_init :: wstate where
  "ex_init = \<lparr>tasks = Map.empty, queue = [], gcs = Map.empty,
               files = [''in.mp4'' \<mapsto> [1, 2, 3]]\<rparr>"

text \<open>Surroundings without faults and without progress reports.\<close>

definition ex_env :: env where
  "ex_env = \<lparr>now = ''20250101000000'', read_fault = None, write_fault = None,
              reports = [], late_reports = [], proc_output = Some [9, 9],
              proc_fault = None, save_fault = None, exists_fault = (\<lambda>p. None),
              unlink_fault = (\<lambda>p. None), session_fault = (\<lambda>st. None)\<rparr>"

text \<open>Surroundings in which the processing operation raises.\<close>

definition ex_env_fail :: env where
  "ex_env_fail = ex_env\<lparr>proc_fault := Some (Failure ''boom'')\<rparr>"

text \<open>
  Surroundings of a job whose temporary input name is too long for the file system:
  \<open>write_bytes\<close> raises an \<open>OSError\<close>, and so does \<open>exists()\<close> on that path.
\<close>

definition ex_env_long :: env where
  "ex_env_long = ex_env\<lparr>write_fault := Some IOError,
                        exists_fault := (\<lambda>p. if p = ''w/uploads/temp_j1.mp4'' then Some IOError else None)\<rparr>"

text \<open>Job \<open>j1\<close> created and queued; then \<open>j2\<close> as well.\<close>

definition ex_queued :: "config \<Rightarrow> wstate" where
  "ex_queued cfg = fst (queue_task cfg ''j1'' ''in.mp4'' (create_task ''j1'' ex_init))"

definition ex_queued2 :: "config \<Rightarrow> wstate" where
  "ex_queued2 cfg = fst (queue_task cfg ''j2'' ''in.mp4'' (create_task ''j2'' (ex_queued cfg)))"

text \<open>Job \<open>j1\<close> dequeued and staged: the worker is suspended in the processing operation.\<close>

definition ex_processing :: "config \<Rightarrow> wstate" where
  "ex_processing cfg =
     fst (stage_in cfg ex_env (''j1'', snd (hd (queue (ex_queued cfg))))
            ((ex_queued cfg)\<lparr>queue := []\<rparr>))"

text \<open>Job \<open>j1\<close> after a whole successful pass.\<close>

definition ex_finished :: "config \<Rightarrow> wstate" where
  "ex_finished cfg = fst (run_iteration cfg ex_env (ex_queued cfg))"

text \<open>Job \<open>j1\<close> after a pass in which the processing operation raises.\<close>

definition ex_failed :: "config \<Rightarrow> wstate" where
  "ex_failed cfg = fst (run_iteration cfg ex_env_fail (ex_queued cfg))"

text \<open>Job \<open>j1\<close> marked \<open>ERROR\<close> while it waits in the queue.\<close>

definition ex_marked :: "config \<Rightarrow> wstate" where
  "ex_marked cfg = mark_task_error ''j1'' ''upload failed'' (ex_queued cfg)"

subsection \<open>Vocabulary of the proofs\<close>

text \<open>
  \<open>touches u s s'\<close>: from \<open>s\<close> to \<open>s'\<close> the queue is the same, every row but that of
  job \<open>u\<close> is the same, and job \<open>u\<close> has a row after exactly when it had one before.
\<close>

definition touches :: "string \<Rightarrow> wstate \<Rightarrow> wstate \<Rightarrow> bool" where
  "touches u s s' =
     (queue s' = queue s \<and> (\<forall>k. k \<noteq> u \<longrightarrow> tasks s' k = tasks s k)
      \<and> ((tasks s' u = None) = (tasks s u = None)))"

text \<open>
  The invariant of a row: a \<open>FINISHED\<close> job has an output path; an \<open>UPLOADING\<close> job
  has none and stands at percentage 0. The invariant of a state with the dequeued jobs
  \<open>D\<close>: every row keeps the invariant, and every job that is queued or was dequeued
  has a row that is not \<open>UPLOADING\<close>.
\<close>

definition job_inv :: "Task \<Rightarrow> bool" where
  "job_inv t = ((status t = FINISHED \<longrightarrow> output_path t \<noteq> None)
              \<and> (status t = UPLOADING \<longrightarrow> output_path t = None \<and> percentage t = 0))"

definition started :: "string \<Rightarrow> wstate \<Rightarrow> bool" where
  "started i s = (\<exists>t. tasks s i = Some t \<and> status t \<noteq> UPLOADING)"

definition state_inv :: "string set \<Rightarrow> wstate \<Rightarrow> bool" where
  "state_inv D s =
     ((\<forall>k t. tasks s k = Some t \<longrightarrow> job_inv t)
      \<and> (\<forall>i \<in> D. started i s)
      \<and> (\<forall>job \<in> set (queue s). started (fst job) s))"

section \<open>Theorems about the job store and the worker\<close>

lemmas ex_defs = ex_local_def ex_remote_def ex_init_def ex_env_def ex_env_fail_def ex_env_long_def
  ex_queued_def ex_queued2_def ex_processing_def ex_finished_def ex_failed_def ex_marked_def

lemmas op_defs = create_task_def queue_task_def mark_task_error_def update_progress_def
  session_update_def mark_processing_def mark_finished_def mark_error_def download_input_def
  stage_in_def apply_reports_def path_exists_def unlink_if_exists_def unlink_logged_def
  run_processing_def upload_output_def process_and_stage_out_def cleanup_on_error_def
  handle_error_def try_body_def run_job_def run_iteration_def
  path_name_def path_suffix_def path_join_def py_path_def
  gcs_save_def gcs_read_def blob_exists_def download_as_bytes_def lstrip_slash_def Let_def

subsection \<open>The pieces that do I/O leave the job store and the queue alone\<close>

lemma unlink_if_exists_frame:
  "unlink_if_exists ev p s = (s', r) \<Longrightarrow> tasks s' = tasks s \<and> queue s' = queue s"
  by (auto simp: unlink_if_exists_def split: option.splits sum.splits if_splits)

lemma unlink_logged_frame:
  "unlink_logged ev p s = (s', r) \<Longrightarrow> tasks s' = tasks s \<and> queue s' = queue s"
  by (auto simp: unlink_logged_def split: option.splits sum.splits if_splits)

lemma download_input_frame:
  "download_input cfg ev job s = (s', l, r) \<Longrightarrow>
     tasks s' = tasks s \<and> queue s' = queue s \<and> task_uuid l = fst job"
  by (auto simp: download_input_def Let_def split: option.splits sum.splits if_splits)

lemma run_processing_frame:
  "run_processing ev l s = (s', r) \<Longrightarrow> tasks s' = tasks s \<and> queue s' = queue s"
  by (auto simp: run_processing_def Let_def split: option.splits)

lemma upload_output_frame:
  "upload_output cfg ev l s = (s', fin, r) \<Longrightarrow> tasks s' = tasks s \<and> queue s' = queue s"
  by (auto simp: upload_output_def Let_def split: option.splits if_splits prod.splits
      dest!: unlink_if_exists_frame)

lemma cleanup_on_error_frame:
  "cleanup_on_error cfg ev l s = (s', r) \<Longrightarrow> tasks s' = tasks s \<and> queue s' = queue s"
  by (auto simp: cleanup_on_error_def split: option.splits if_splits prod.splits
      dest!: unlink_logged_frame)

subsection \<open>Every piece of a pass touches the row of its own job only\<close>

lemma touches_refl: "touches u s s"
  by (simp add: touches_def)

lemma touches_trans: "touches u s s1 \<Longrightarrow> touches u s1 s2 \<Longrightarrow> touches u s s2"
  by (simp add: touches_def)

lemma touches_frame: "tasks s' = tasks s \<Longrightarrow> queue s' = queue s \<Longrightarrow> touches u s s'"
  by (simp add: touches_def)

lemma session_update_touches: "session_update fault u assign s = (s', r) \<Longrightarrow> touches u s s'"
  by (auto simp: session_update_def touches_def split: option.splits)

lemma update_progress_touches: "touches u s (update_progress fl u pct s)"
  by (auto simp: update_progress_def touches_def split: option.splits)

lemma apply_reports_touches: "touches u s (apply_reports u rs s)"
proof (induction rs arbitrary: s)
  case Nil
  show ?case by (simp add: apply_reports_def touches_refl)
next
  case (Cons r rs)
  have "touches u s (update_progress (snd r) u (fst r) s)"
    by (rule update_progress_touches)
  moreover have "touches u (update_progress (snd r) u (fst r) s)
                   (apply_reports u rs (update_progress (snd r) u (fst r) s))"
    by (rule Cons.IH)
  ultimately show ?case
    by (simp add: apply_reports_def touches_trans)
qed

lemma stage_in_touches:
  assumes "stage_in cfg ev job s = (s', l, r)"
  shows "touches (fst job) s s' \<and> task_uuid l = fst job"
proof -
  obtain s1 l1 r1 where d: "download_input cfg ev job s = (s1, l1, r1)"
    by (cases "download_input cfg ev job s") auto
  note f = download_input_frame [OF d]
  show ?thesis
  proof (cases r1)
    case (Some e)
    with d assms f show ?thesis by (simp add: stage_in_def touches_frame)
  next
    case None
    obtain s2 r2 where m: "mark_processing ev (fst job) s1 = (s2, r2)"
      by (cases "mark_processing ev (fst job) s1") auto
    have "touches (fst job) s s1" using f by (simp add: touches_frame)
    moreover have "touches (fst job) s1 s2"
      using m by (simp add: mark_processing_def session_update_touches)
    ultimately have "touches (fst job) s s2" by (rule touches_trans)
    with d None m assms f show ?thesis by (auto simp: stage_in_def Let_def)
  qed
qed

lemma process_and_stage_out_touches:
  assumes "process_and_stage_out cfg ev l s = (s', r)"
  shows "touches (task_uuid l) s s'"
proof -
  obtain s1 r1 where p: "run_processing ev l s = (s1, r1)"
    by (cases "run_processing ev l s") auto
  have t1: "touches (task_uuid l) s s1"
    using run_processing_frame [OF p] by (simp add: touches_frame)
  show ?thesis
  proof (cases r1)
    case (Some e)
    with p assms t1 show ?thesis by (simp add: process_and_stage_out_def)
  next
    case None
    obtain s2 fin r2 where u: "upload_output cfg ev l s1 = (s2, fin, r2)"
      by (cases "upload_output cfg ev l s1") auto
    have t2: "touches (task_uuid l) s s2"
      using upload_output_frame [OF u] t1 touches_frame touches_trans by blast
    show ?thesis
    proof (cases r2)
      case (Some e)
      with p None u assms t2 show ?thesis by (simp add: process_and_stage_out_def)
    next
      case None2: None
      with p None u assms have "mark_finished ev (task_uuid l) fin s2 = (s', r)"
        by (simp add: process_and_stage_out_def)
      then have "touches (task_uuid l) s2 s'"
        by (simp add: mark_finished_def session_update_touches)
      with t2 show ?thesis by (rule touches_trans)
    qed
  qed
qed

lemma handle_error_touches:
  assumes "handle_error cfg ev l s = (s', r)"
  shows "touches (task_uuid l) s s'"
proof -
  obtain s1 r1 where c: "cleanup_on_error cfg ev l s = (s1, r1)"
    by (cases "cleanup_on_error cfg ev l s") auto
  have t1: "touches (task_uuid l) s s1"
    using cleanup_on_error_frame [OF c] by (simp add: touches_frame)
  show ?thesis
  proof (cases r1)
    case (Some e)
    with c assms t1 show ?thesis by (simp add: handle_error_def)
  next
    case None
    with c assms have "mark_error ev (task_uuid l) s1 = (s', r)" by (simp add: handle_error_def)
    then have "touches (task_uuid l) s1 s'"
      by (simp add: mark_error_def session_update_touches)
    with t1 show ?thesis by (rule touches_trans)
  qed
qed

lemma try_body_touches:
  assumes "try_body cfg ev job s = (s', l, r)"
  shows "touches (fst job) s s' \<and> task_uuid l = fst job"
proof -
  obtain sa la ra where st: "stage_in cfg ev job s = (sa, la, ra)"
    by (cases "stage_in cfg ev job s") auto
  note a = stage_in_touches [OF st]
  show ?thesis
  proof (cases ra)
    case (Some e)
    with st assms a show ?thesis by (simp add: try_body_def)
  next
    case None
    obtain sb rb where pr:
      "process_and_stage_out cfg ev la (apply_reports (task_uuid la) (reports ev) sa) = (sb, rb)"
      by (cases "process_and_stage_out cfg ev la (apply_reports (task_uuid la) (reports ev) sa)") auto
    have "touches (fst job) sa (apply_reports (task_uuid la) (reports ev) sa)"
      using a apply_reports_touches [of "task_uuid la"] by simp
    moreover have "touches (fst job) (apply_reports (task_uuid la) (reports ev) sa) sb"
      using process_and_stage_out_touches [OF pr] a by simp
    ultimately have "touches (fst job) s sb"
      using a touches_trans by blast
    with st None pr assms a show ?thesis by (simp add: try_body_def)
  qed
qed

lemma run_job_touches:
  assumes "run_job cfg ev job s = (s', r)"
  shows "touches (fst job) s s'"
proof -
  obtain sa la ra where tb: "try_body cfg ev job s = (sa, la, ra)"
    by (cases "try_body cfg ev job s") auto
  note a = try_body_touches [OF tb]
  obtain sb rb where h: "handle_error cfg ev la sa = (sb, rb)"
    by (cases "handle_error cfg ev la sa") auto
  have b: "touches (fst job) s sb"
    using handle_error_touches [OF h] a touches_trans by force
  have "touches (fst job) s (case ra of None \<Rightarrow> sa | Some e \<Rightarrow> sb)"
    using a b by (cases ra) simp_all
  moreover have "s' = apply_reports (fst job) (late_reports ev)
                        (case ra of None \<Rightarrow> sa | Some e \<Rightarrow> sb)"
    using tb h assms by (cases ra) (auto simp: run_job_def)
  ultimately show ?thesis
    using apply_reports_touches touches_trans by blast
qed

subsection \<open>Lookups and marking of unknown jobs\<close>

text \<open>
  C8. For a job id without a row, \<open>get_task_status\<close> and \<open>get_output_path\<close> return
  \<open>None\<close> and raise nothing; \<open>get_task_status\<close> returns \<open>None\<close> for no other id, so
  the answer is distinct from every answer that carries one of the four states.
\<close>

theorem unknown_job_lookups:
  "(get_task_status cfg sign task_id s = None \<longleftrightarrow> tasks s task_id = None)
   \<and> (tasks s task_id = None \<longrightarrow> get_output_path task_id s = None)"
  by (simp add: get_task_status_def get_output_path_def Let_def split: option.splits)

theorem unknown_job_lookups_witness:
  "tasks (ex_queued ex_local) ''nobody'' = None
   \<and> get_task_status ex_local (\<lambda>n ttl. Inr n) ''nobody'' (ex_queued ex_local) = None
   \<and> get_output_path ''nobody'' (ex_queued ex_local) = None"
proof -
  have h: "tasks (ex_queued ex_local) ''nobody'' = None"
    by (simp add: ex_defs op_defs)
  show ?thesis
    using h unknown_job_lookups [of ex_local "\<lambda>n ttl. Inr n" "''nobody''" "ex_queued ex_local"]
    by simp
qed

text \<open>
  C10. \<open>mark_task_error\<close> on a job id without a row returns normally and leaves the
  whole state as it was.
\<close>

theorem mark_task_error_unknown_noop:
  "tasks s task_id = None \<Longrightarrow> mark_task_error task_id error_msg s = s"
  by (simp add: mark_task_error_def)

theorem mark_task_error_unknown_noop_witness:
  "tasks (ex_queued ex_local) ''nobody'' = None \<and>
   mark_task_error ''nobody'' ''upload failed'' (ex_queued ex_local) = ex_queued ex_local"
proof -
  have h: "tasks (ex_queued ex_local) ''nobody'' = None"
    by (simp add: ex_defs op_defs)
  show ?thesis using h mark_task_error_unknown_noop [OF h] by simp
qed

subsection \<open>Terminal states\<close>

lemma update_progress_status:
  "map_option status (tasks (update_progress fl i pct s) k) = map_option status (tasks s k)"
  by (simp add: update_progress_def split: option.splits)

lemma session_update_done:
  "session_update fault u assign s = (s', None) \<Longrightarrow>
     \<exists>t. tasks s u = Some t \<and> tasks s' u = Some (assign t)"
  by (auto simp: session_update_def split: option.splits)

text \<open>
  C3, as the code has it. A progress update changes no job's status.
  \<open>mark_task_error\<close> sets the named job, whatever its status, to \<open>ERROR\<close> (so an
  \<open>ERROR\<close> job stays \<open>ERROR\<close> and a \<open>FINISHED\<close> job becomes \<open>ERROR\<close>) and changes no
  other row. The worker's finalizing block sets the job of the pass to \<open>FINISHED\<close>
  and its error block sets it to \<open>ERROR\<close>, whatever the status was; a pass changes no
  row but that of its own job.
\<close>

theorem status_changes:
  "map_option status (tasks (update_progress fl i pct s) k) = map_option status (tasks s k)
   \<and> (\<forall>t. tasks s i = Some t \<longrightarrow>
         tasks (mark_task_error i m s) i = Some (t\<lparr>status := ERROR, percentage := 0\<rparr>))
   \<and> (k \<noteq> i \<longrightarrow> tasks (mark_task_error i m s) k = tasks s k)
   \<and> (\<forall>fin s'. mark_finished ev i fin s = (s', None) \<longrightarrow>
         map_option status (tasks s' i) = Some FINISHED)
   \<and> (\<forall>s'. mark_error ev i s = (s', None) \<longrightarrow> map_option status (tasks s' i) = Some ERROR)
   \<and> (k \<noteq> fst job \<longrightarrow> tasks (fst (run_job cfg ev job s)) k = tasks s k)"
proof -
  have a: "\<forall>fin s'. mark_finished ev i fin s = (s', None) \<longrightarrow>
         map_option status (tasks s' i) = Some FINISHED"
    by (auto simp: mark_finished_def dest!: session_update_done)
  have b: "\<forall>s'. mark_error ev i s = (s', None) \<longrightarrow> map_option status (tasks s' i) = Some ERROR"
    by (auto simp: mark_error_def dest!: session_update_done)
  have c: "k \<noteq> fst job \<longrightarrow> tasks (fst (run_job cfg ev job s)) k = tasks s k"
    using run_job_touches [where cfg=cfg and ev=ev and job=job and s=s, OF surjective_pairing]
    by (simp add: touches_def)
  have d: "(\<forall>t. tasks s i = Some t \<longrightarrow>
         tasks (mark_task_error i m s) i = Some (t\<lparr>status := ERROR, percentage := 0\<rparr>))
     \<and> (k \<noteq> i \<longrightarrow> tasks (mark_task_error i m s) k = tasks s k)"
    by (auto simp: mark_task_error_def split: option.splits)
  from a b c d show ?thesis by (simp add: update_progress_status)
qed

theorem status_changes_witness:
  "map_option status (tasks (ex_failed ex_local) ''j1'') = Some ERROR
   \<and> map_option status (tasks (mark_task_error ''j1'' ''again'' (ex_failed ex_local)) ''j1'')
       = Some ERROR
   \<and> map_option status (tasks (update_progress False ''j1'' 40 (ex_failed ex_local)) ''j1'')
       = Some ERROR
   \<and> ''j1'' \<noteq> ''j2''
   \<and> map_option status (tasks (ex_marked ex_local) ''j1'') = Some ERROR
   \<and> map_option status (tasks (ex_queued2 ex_local) ''j1'') = Some PROCESSING
   \<and> map_option status
        (tasks (fst (run_job ex_local ex_env (''j2'', ''in.mp4'')
                       ((ex_queued2 ex_local)\<lparr>queue := []\<rparr>))) ''j2'') = Some FINISHED
   \<and> map_option status
        (tasks (fst (run_job ex_local ex_env (''j2'', ''in.mp4'')
                       ((ex_queued2 ex_local)\<lparr>queue := []\<rparr>))) ''j1'') = Some PROCESSING"
proof -
  let ?s2 = "(ex_queued2 ex_local)\<lparr>queue := []\<rparr>"
  obtain t where t: "tasks (ex_failed ex_local) ''j1'' = Some t" and e: "status t = ERROR"
    by (simp add: ex_defs op_defs)
  have n: "''j1'' \<noteq> ''j2''" by simp
  have p: "map_option status (tasks (ex_queued2 ex_local) ''j1'') = Some PROCESSING"
    by (simp add: ex_defs op_defs)
  have m: "map_option status (tasks (ex_marked ex_local) ''j1'') = Some ERROR"
    by (simp add: ex_defs op_defs)
  have f: "map_option status (tasks (fst (run_job ex_local ex_env (''j2'', ''in.mp4'') ?s2)) ''j2'')
             = Some FINISHED"
    by (simp add: ex_defs op_defs)
  note a = status_changes [where k="''j1''" and i="''j1''" and s="ex_failed ex_local"
      and m="''again''" and fl=False and pct=40]
  note b = status_changes [where k="''j1''" and job="(''j2'', ''in.mp4'')" and s="?s2"
      and cfg=ex_local and ev=ex_env]
  have "tasks (fst (run_job ex_local ex_env (''j2'', ''in.mp4'') ?s2)) ''j1'' = tasks ?s2 ''j1''"
    using b n by simp
  with p have q: "map_option status
        (tasks (fst (run_job ex_local ex_env (''j2'', ''in.mp4'') ?s2)) ''j1'') = Some PROCESSING"
    by simp
  from a t e have "map_option status (tasks (mark_task_error ''j1'' ''again'' (ex_failed ex_local)) ''j1'')
       = Some ERROR
     \<and> map_option status (tasks (update_progress False ''j1'' 40 (ex_failed ex_local)) ''j1'')
       = Some ERROR"
    by simp
  with t e n p m f q show ?thesis by simp
qed

text \<open>
  The claim C3 as written fails: \<open>mark_task_error\<close> has no guard on the status, and a
  job that is \<open>FINISHED\<close> becomes \<open>ERROR\<close>; and the worker has none either, so a job
  that was marked \<open>ERROR\<close> while it waited in the queue is \<open>FINISHED\<close> after its pass.
\<close>

theorem terminal_counterexample:
  "map_option status (tasks (ex_finished ex_local) ''j1'') = Some FINISHED
   \<and> map_option status (tasks (mark_task_error ''j1'' ''late'' (ex_finished ex_local)) ''j1'')
       = Some ERROR
   \<and> map_option status (tasks (ex_marked ex_local) ''j1'') = Some ERROR
   \<and> queue (ex_marked ex_local) = [(''j1'', ''in.mp4'')]
   \<and> map_option status (tasks (fst (run_iteration ex_local ex_env (ex_marked ex_local))) ''j1'')
       = Some FINISHED"
  by (simp add: ex_defs op_defs)

subsection \<open>Progress reports\<close>

lemma progress_trace_closed:
  "progress_trace uuid rs s =
     (if tasks s uuid = None then [] else map fst (filter (\<lambda>r. \<not> snd r) rs))"
  by (induction rs arbitrary: s) (auto simp: update_progress_def Let_def split: option.splits)

lemma apply_reports_snoc:
  "apply_reports u (rs @ [r]) s = update_progress (snd r) u (fst r) (apply_reports u rs s)"
  by (simp add: apply_reports_def)

lemma apply_reports_percentage_closed:
  assumes "tasks s uuid = Some t"
  shows "map_option percentage (tasks (apply_reports uuid rs s) uuid) =
           Some (last (percentage t # map fst (filter (\<lambda>r. \<not> snd r) rs)))"
proof (induction rs rule: rev_induct)
  case Nil
  show ?case using assms by (simp add: apply_reports_def)
next
  case (snoc r rs)
  have "(tasks (apply_reports uuid rs s) uuid = None) = (tasks s uuid = None)"
    using apply_reports_touches [of uuid s rs] by (simp add: touches_def)
  with assms obtain t' where t': "tasks (apply_reports uuid rs s) uuid = Some t'" by auto
  show ?case
  proof (cases "snd r")
    case True
    with snoc show ?thesis by (simp add: apply_reports_snoc update_progress_def)
  next
    case False
    with t' show ?thesis by (simp add: apply_reports_snoc update_progress_def)
  qed
qed

lemma apply_reports_percentage:
  "map_option percentage (tasks (apply_reports uuid rs s) uuid) =
     (if progress_trace uuid rs s = [] then map_option percentage (tasks s uuid)
      else Some (last (progress_trace uuid rs s)))"
proof (cases "tasks s uuid")
  case None
  moreover have "(tasks (apply_reports uuid rs s) uuid = None) = (tasks s uuid = None)"
    using apply_reports_touches [of uuid s rs] by (simp add: touches_def)
  ultimately show ?thesis by (simp add: progress_trace_closed)
next
  case (Some t)
  from apply_reports_percentage_closed [OF this, of rs] Some show ?thesis
    by (cases "filter (\<lambda>r. \<not> snd r) rs = []") (auto simp: progress_trace_closed)
qed

text \<open>
  C4, as the code has it. A progress update that is applied stores the value it
  carries, whatever was stored before. So for the updates of a job taken in the order
  in which they are applied, the stored percentages are those values in that order,
  they are non-decreasing exactly when those values are, and the percentage stored
  after them is the last of them.
\<close>

theorem progress_trace_is_reports:
  "progress_trace uuid rs s =
     (if tasks s uuid = None then [] else map fst (filter (\<lambda>r. \<not> snd r) rs))
   \<and> (tasks s uuid \<noteq> None \<longrightarrow>
        sorted (progress_trace uuid rs s) = sorted (map fst (filter (\<lambda>r. \<not> snd r) rs)))
   \<and> map_option percentage (tasks (apply_reports uuid rs s) uuid) =
        (if progress_trace uuid rs s = [] then map_option percentage (tasks s uuid)
         else Some (last (progress_trace uuid rs s)))"
  using progress_trace_closed [of uuid rs s] apply_reports_percentage [of uuid rs s]
  by simp

theorem progress_trace_is_reports_witness:
  "tasks (ex_processing ex_local) ''j1'' \<noteq> None
   \<and> progress_trace ''j1'' [(20, False), (35, True), (50, False)] (ex_processing ex_local) = [20, 50]
   \<and> sorted (progress_trace ''j1'' [(20, False), (35, True), (50, False)] (ex_processing ex_local))
   \<and> map_option percentage
        (tasks (apply_reports ''j1'' [(20, False), (35, True), (50, False)] (ex_processing ex_local))
           ''j1'') = Some 50"
proof -
  have h: "tasks (ex_processing ex_local) ''j1'' \<noteq> None"
    by (simp add: ex_defs op_defs)
  show ?thesis
    using h progress_trace_is_reports [of "''j1''" "[(20, False), (35, True), (50, False)]"
        "ex_processing ex_local"]
    by (simp add: ex_defs op_defs)
qed

text \<open>
  The claim C4 as written fails: the processing operation may report a smaller value
  after a larger one, and the smaller one is stored.
\<close>

theorem progress_counterexample:
  "map_option percentage (tasks (ex_processing ex_local) ''j1'') = Some 10
   \<and> progress_trace ''j1'' [(50, False), (20, False)] (ex_processing ex_local) = [50, 20]
   \<and> \<not> sorted (progress_trace ''j1'' [(50, False), (20, False)] (ex_processing ex_local))
   \<and> map_option percentage
        (tasks (fst (try_body ex_local (ex_env\<lparr>reports := [(50, False), (20, False)],
                                              proc_fault := Some (Failure ''boom'')\<rparr>)
                       (''j1'', ''in.mp4'') ((ex_queued ex_local)\<lparr>queue := []\<rparr>))) ''j1'')
       = Some 20"
  by (simp add: ex_defs op_defs)

subsection \<open>The invariant of the job store\<close>

lemma state_inv_frame:
  "state_inv D s \<Longrightarrow> tasks s' = tasks s \<Longrightarrow> queue s' = queue s \<Longrightarrow> state_inv D s'"
  by (simp add: state_inv_def started_def)

lemma session_update_inv:
  assumes "state_inv D s" and "session_update fault u assign s = (s', r)"
    and "\<And>t. job_inv (assign t)" and "\<And>t. status (assign t) \<noteq> UPLOADING"
  shows "state_inv D s'"
proof (cases "r = None")
  case False
  with assms(2) have "s' = s" by (auto simp: session_update_def split: option.splits)
  with assms(1) show ?thesis by simp
next
  case True
  with assms(2) obtain t where t: "tasks s u = Some t"
    and s': "s' = s\<lparr>tasks := (tasks s)(u \<mapsto> assign t)\<rparr>"
    by (auto simp: session_update_def split: option.splits)
  have "started i s \<Longrightarrow> started i s'" for i
    using assms(4) [of t] by (auto simp: started_def s')
  with assms(1) assms(3) [of t] show ?thesis
    by (auto simp: state_inv_def s')
qed

lemma mark_processing_inv:
  assumes "state_inv D s" and "mark_processing ev u s = (s', r)"
  shows "state_inv D s'"
proof (rule session_update_inv [OF assms(1) assms(2) [unfolded mark_processing_def]])
  show "job_inv (t\<lparr>status := PROCESSING, percentage := 10\<rparr>)" for t :: Task
    by (simp add: job_inv_def)
  show "status (t\<lparr>status := PROCESSING, percentage := 10\<rparr>) \<noteq> UPLOADING" for t :: Task
    by simp
qed

lemma mark_finished_inv:
  assumes "state_inv D s" and "mark_finished ev u fin s = (s', r)"
  shows "state_inv D s'"
proof (rule session_update_inv [OF assms(1) assms(2) [unfolded mark_finished_def]])
  show "job_inv (t\<lparr>status := FINISHED, percentage := 100, output_path := Some fin,
                 download_url := Some (''/download/'' @ u)\<rparr>)" for t :: Task
    by (simp add: job_inv_def)
  show "status (t\<lparr>status := FINISHED, percentage := 100, output_path := Some fin,
                 download_url := Some (''/download/'' @ u)\<rparr>) \<noteq> UPLOADING" for t :: Task
    by simp
qed

lemma mark_error_inv:
  assumes "state_inv D s" and "mark_error ev u s = (s', r)"
  shows "state_inv D s'"
proof (rule session_update_inv [OF assms(1) assms(2) [unfolded mark_error_def]])
  show "job_inv (t\<lparr>status := ERROR, percentage := 0\<rparr>)" for t :: Task
    by (simp add: job_inv_def)
  show "status (t\<lparr>status := ERROR, percentage := 0\<rparr>) \<noteq> UPLOADING" for t :: Task
    by simp
qed

lemma stage_in_inv:
  assumes "state_inv D s" and "stage_in cfg ev job s = (s', l, r)"
  shows "state_inv D s'"
proof -
  obtain s1 l1 r1 where d: "download_input cfg ev job s = (s1, l1, r1)"
    by (cases "download_input cfg ev job s") auto
  have i1: "state_inv D s1"
    using download_input_frame [OF d] assms(1) state_inv_frame by blast
  show ?thesis
  proof (cases r1)
    case (Some e)
    with d assms(2) i1 show ?thesis by (simp add: stage_in_def)
  next
    case None
    obtain s2 r2 where m: "mark_processing ev (fst job) s1 = (s2, r2)"
      by (cases "mark_processing ev (fst job) s1") auto
    from d None m assms(2) have "s' = s2" by (simp add: stage_in_def Let_def)
    with mark_processing_inv [OF i1 m] show ?thesis by simp
  qed
qed

lemma process_and_stage_out_inv:
  assumes "state_inv D s" and "process_and_stage_out cfg ev l s = (s', r)"
  shows "state_inv D s'"
proof -
  obtain s1 r1 where p: "run_processing ev l s = (s1, r1)"
    by (cases "run_processing ev l s") auto
  have i1: "state_inv D s1"
    using run_processing_frame [OF p] assms(1) state_inv_frame by blast
  obtain s2 fin r2 where u: "upload_output cfg ev l s1 = (s2, fin, r2)"
    by (cases "upload_output cfg ev l s1") auto
  have i2: "state_inv D s2"
    using upload_output_frame [OF u] i1 state_inv_frame by blast
  show ?thesis
  proof (cases r1)
    case (Some e)
    with p assms(2) i1 show ?thesis by (simp add: process_and_stage_out_def)
  next
    case None
    show ?thesis
    proof (cases r2)
      case (Some e)
      with p None u assms(2) i2 show ?thesis by (simp add: process_and_stage_out_def)
    next
      case None2: None
      with p None u assms(2) have "mark_finished ev (task_uuid l) fin s2 = (s', r)"
        by (simp add: process_and_stage_out_def)
      from mark_finished_inv [OF i2 this] show ?thesis .
    qed
  qed
qed

lemma handle_error_inv:
  assumes "state_inv D s" and "handle_error cfg ev l s = (s', r)"
  shows "state_inv D s'"
proof -
  obtain s1 r1 where c: "cleanup_on_error cfg ev l s = (s1, r1)"
    by (cases "cleanup_on_error cfg ev l s") auto
  have i1: "state_inv D s1"
    using cleanup_on_error_frame [OF c] assms(1) state_inv_frame by blast
  show ?thesis
  proof (cases r1)
    case (Some e)
    with c assms(2) i1 show ?thesis by (simp add: handle_error_def)
  next
    case None
    with c assms(2) have "mark_error ev (task_uuid l) s1 = (s', r)"
      by (simp add: handle_error_def)
    from mark_error_inv [OF i1 this] show ?thesis .
  qed
qed

lemma update_progress_inv:
  assumes "state_inv D s" and "started i s"
  shows "state_inv D (update_progress fl i pct s)"
proof (cases "fl")
  case True
  with assms(1) show ?thesis by (simp add: update_progress_def)
next
  case False
  from assms(2) obtain t where t: "tasks s i = Some t" and n: "status t \<noteq> UPLOADING"
    by (auto simp: started_def)
  have s': "update_progress fl i pct s = s\<lparr>tasks := (tasks s)(i \<mapsto> t\<lparr>percentage := pct\<rparr>)\<rparr>"
    using False t by (simp add: update_progress_def)
  have j: "job_inv (t\<lparr>percentage := pct\<rparr>)"
    using assms(1) t n by (auto simp: state_inv_def job_inv_def)
  have "started k s \<Longrightarrow> started k (s\<lparr>tasks := (tasks s)(i \<mapsto> t\<lparr>percentage := pct\<rparr>)\<rparr>)" for k
    using n by (auto simp: started_def)
  with assms(1) j show ?thesis
    unfolding s' by (auto simp: state_inv_def)
qed

lemma create_task_inv:
  assumes "state_inv D s" and "tasks s u = None"
  shows "state_inv D (create_task u s)"
proof -
  have "started k s \<Longrightarrow> started k (create_task u s)" for k
    using assms(2) by (auto simp: started_def create_task_def)
  with assms(1) show ?thesis
    by (auto simp: state_inv_def job_inv_def create_task_def)
qed

lemma queue_task_inv:
  assumes "state_inv D s"
  shows "state_inv D (fst (queue_task cfg i p s))"
proof (cases "snd (queue_task cfg i p s)")
  case (Some e)
  then have "tasks (fst (queue_task cfg i p s)) = tasks s \<and> queue (fst (queue_task cfg i p s)) = queue s"
    by (auto simp: queue_task_def Let_def split: option.splits if_splits)
  with assms state_inv_frame show ?thesis by blast
next
  case None
  then obtain t sp where t: "tasks s i = Some t"
    and tk: "tasks (fst (queue_task cfg i p s)) =
               (tasks s)(i \<mapsto> t\<lparr>video_path := sp, status := PROCESSING, percentage := 0\<rparr>)"
    and qu: "queue (fst (queue_task cfg i p s)) = queue s @ [(i, sp)]"
    by (auto simp: queue_task_def Let_def split: option.splits if_splits)
  have "started k s \<Longrightarrow> started k (fst (queue_task cfg i p s))" for k
    by (auto simp: started_def tk)
  moreover have "started i (fst (queue_task cfg i p s))"
    by (simp add: started_def tk)
  ultimately show ?thesis
    using assms by (auto simp: state_inv_def job_inv_def tk qu)
qed

lemma mark_task_error_inv:
  assumes "state_inv D s"
  shows "state_inv D (mark_task_error i m s)"
proof (cases "tasks s i")
  case None
  with assms show ?thesis by (simp add: mark_task_error_def)
next
  case (Some t)
  have "started k s \<Longrightarrow> started k (mark_task_error i m s)" for k
    using Some by (auto simp: started_def mark_task_error_def)
  with assms Some show ?thesis
    by (auto simp: state_inv_def job_inv_def mark_task_error_def)
qed

lemma reachable_state_inv: "reachable cfg D s \<Longrightarrow> state_inv D s"
proof (induction rule: reachable.induct)
  case (r_init b f)
  show ?case by (simp add: state_inv_def)
next
  case (r_create D s u)
  then show ?case by (simp add: create_task_inv)
next
  case (r_queue D s i p)
  then show ?case by (simp add: queue_task_inv)
next
  case (r_mark D s i m)
  then show ?case by (simp add: mark_task_error_inv)
next
  case (r_files D s f)
  then show ?case by (simp add: state_inv_def started_def)
next
  case (r_dequeue D s job rest ev)
  have "state_inv (insert (fst job) D) (s\<lparr>queue := rest\<rparr>)"
    using r_dequeue.IH r_dequeue.hyps(2) by (auto simp: state_inv_def started_def)
  from stage_in_inv [OF this, of cfg ev job] show ?case
    by (cases "stage_in cfg ev job (s\<lparr>queue := rest\<rparr>)") auto
next
  case (r_progress D s i fl pct)
  then have "started i s" by (simp add: state_inv_def)
  with r_progress.IH show ?case by (rule update_progress_inv)
next
  case (r_process D s l ev)
  from process_and_stage_out_inv [OF r_process.IH, of cfg ev l] show ?case
    by (cases "process_and_stage_out cfg ev l s") auto
next
  case (r_handle D s l ev)
  from handle_error_inv [OF r_handle.IH, of cfg ev l] show ?case
    by (cases "handle_error cfg ev l s") auto
qed

subsection \<open>The worker's pass stays among the reachable states\<close>

lemma reachable_apply_reports:
  "reachable cfg D s \<Longrightarrow> u \<in> D \<Longrightarrow> reachable cfg D (apply_reports u rs s)"
  unfolding apply_reports_def
  by (induction rs arbitrary: s) (simp_all add: r_progress)

lemma reachable_run_iteration:
  assumes "reachable cfg D s" and "queue s = job # rest"
  shows "reachable cfg (insert (fst job) D) (fst (run_iteration cfg ev s))"
proof -
  let ?s0 = "s\<lparr>queue := rest\<rparr>" let ?D = "insert (fst job) D"
  obtain s1 l r1 where st: "stage_in cfg ev job ?s0 = (s1, l, r1)"
    by (cases "stage_in cfg ev job ?s0") auto
  have u: "task_uuid l = fst job" using stage_in_touches [OF st] by simp
  have r1: "reachable cfg ?D s1"
    using r_dequeue [OF assms, of ev] st by simp
  obtain s2 r2 where h: "handle_error cfg ev l s1 = (s2, r2)"
    by (cases "handle_error cfg ev l s1") auto
  have rh: "reachable cfg ?D s2"
    using r_handle [OF r1, of l ev] u h by simp
  let ?sr = "apply_reports (task_uuid l) (reports ev) s1"
  obtain s3 r3 where p: "process_and_stage_out cfg ev l ?sr = (s3, r3)"
    by (cases "process_and_stage_out cfg ev l ?sr") auto
  have rr: "reachable cfg ?D ?sr" using reachable_apply_reports [OF r1] u by simp
  have rp: "reachable cfg ?D s3"
    using r_process [OF rr, of l ev] u p by simp
  obtain s4 r4 where h2: "handle_error cfg ev l s3 = (s4, r4)"
    by (cases "handle_error cfg ev l s3") auto
  have rh2: "reachable cfg ?D s4"
    using r_handle [OF rp, of l ev] u h2 by simp
  have "\<exists>s5. reachable cfg ?D s5 \<and>
          fst (run_iteration cfg ev s) = apply_reports (fst job) (late_reports ev) s5"
  proof (cases r1)
    case (Some e)
    with st h assms(2) rh show ?thesis
      by (auto simp: run_iteration_def run_job_def try_body_def)
  next
    case None
    show ?thesis
    proof (cases r3)
      case None3: None
      with None st p assms(2) rp show ?thesis
        by (auto simp: run_iteration_def run_job_def try_body_def)
    next
      case (Some e)
      with None st p h2 assms(2) rh2 show ?thesis
        by (auto simp: run_iteration_def run_job_def try_body_def)
    qed
  qed
  then show ?thesis
    using reachable_apply_reports [of cfg ?D _ "fst job"] by auto
qed

subsection \<open>The example states are reachable\<close>

lemma queue_ex_queued: "queue (ex_queued cfg) = [(''j1'', snd (hd (queue (ex_queued cfg))))]"
  by (simp add: ex_queued_def ex_init_def queue_task_def create_task_def Let_def
      split: option.splits)

lemma reachable_ex_queued: "reachable cfg {} (ex_queued cfg)"
  unfolding ex_queued_def ex_init_def
  by (intro r_queue r_create r_init) simp

lemma reachable_ex_processing: "reachable cfg {''j1''} (ex_processing cfg)"
  using r_dequeue [OF reachable_ex_queued queue_ex_queued, of cfg ex_env]
  by (simp add: ex_processing_def)

lemma reachable_ex_finished: "reachable cfg {''j1''} (ex_finished cfg)"
  using reachable_run_iteration [OF reachable_ex_queued queue_ex_queued, of cfg ex_env]
  by (simp add: ex_finished_def)

text \<open>
  C1, as the code has it. In every reachable state a \<open>FINISHED\<close> job has an output
  path, and an \<open>UPLOADING\<close> job has none and stands at percentage 0. The finalizing
  block writes \<open>FINISHED\<close>, 100 and the output path together; the error block and
  \<open>mark_task_error\<close> write \<open>ERROR\<close> and 0 together.
\<close>

theorem reachable_job_invariant:
  assumes "reachable cfg D s"
  shows "(\<forall>k t. tasks s k = Some t \<longrightarrow>
            (status t = FINISHED \<longrightarrow> output_path t \<noteq> None)
          \<and> (status t = UPLOADING \<longrightarrow> output_path t = None \<and> percentage t = 0))
       \<and> (\<forall>ev u fin s'. mark_finished ev u fin s = (s', None) \<longrightarrow>
            (\<exists>t. tasks s' u = Some t \<and> status t = FINISHED \<and> percentage t = 100
                \<and> output_path t = Some fin))
       \<and> (\<forall>ev u s'. mark_error ev u s = (s', None) \<longrightarrow>
            (\<exists>t. tasks s' u = Some t \<and> status t = ERROR \<and> percentage t = 0))
       \<and> (\<forall>i m t. tasks s i = Some t \<longrightarrow>
            (\<exists>t'. tasks (mark_task_error i m s) i = Some t' \<and> status t' = ERROR
                 \<and> percentage t' = 0))"
proof -
  have a: "\<forall>k t. tasks s k = Some t \<longrightarrow>
            (status t = FINISHED \<longrightarrow> output_path t \<noteq> None)
          \<and> (status t = UPLOADING \<longrightarrow> output_path t = None \<and> percentage t = 0)"
    using reachable_state_inv [OF assms] by (simp add: state_inv_def job_inv_def)
  have b: "\<forall>ev u fin s'. mark_finished ev u fin s = (s', None) \<longrightarrow>
            (\<exists>t. tasks s' u = Some t \<and> status t = FINISHED \<and> percentage t = 100
                \<and> output_path t = Some fin)"
    by (auto simp: mark_finished_def dest!: session_update_done)
  have c: "\<forall>ev u s'. mark_error ev u s = (s', None) \<longrightarrow>
            (\<exists>t. tasks s' u = Some t \<and> status t = ERROR \<and> percentage t = 0)"
    by (auto simp: mark_error_def dest!: session_update_done)
  have d: "\<forall>i m t. tasks s i = Some t \<longrightarrow>
            (\<exists>t'. tasks (mark_task_error i m s) i = Some t' \<and> status t' = ERROR
                 \<and> percentage t' = 0)"
    by (simp add: mark_task_error_def)
  from a b c d show ?thesis by blast
qed

theorem reachable_job_invariant_witness:
  "reachable ex_local {''j1''} (ex_finished ex_local)
   \<and> tasks (ex_finished ex_local) ''j1'' =
       Some \<lparr>video_path = ''in.mp4'', status = FINISHED, percentage = 100,
             output_path = Some ''w/j1_20250101000000.mp4'',
             download_url = Some ''/download/j1''\<rparr>
   \<and> reachable ex_local {} (create_task ''j3'' (ex_queued ex_local))
   \<and> tasks (create_task ''j3'' (ex_queued ex_local)) ''j3'' =
       Some \<lparr>video_path = [], status = UPLOADING, percentage = 0,
             output_path = None, download_url = None\<rparr>
   \<and> (\<exists>t. tasks (ex_finished ex_local) ''j1'' = Some t \<and> output_path t \<noteq> None)
   \<and> (\<exists>t'. tasks (mark_task_error ''j1'' ''late'' (ex_finished ex_local)) ''j1'' = Some t'
          \<and> status t' = ERROR \<and> percentage t' = 0)"
proof -
  have r: "reachable ex_local {''j1''} (ex_finished ex_local)" by (rule reachable_ex_finished)
  have e: "tasks (ex_finished ex_local) ''j1'' =
             Some \<lparr>video_path = ''in.mp4'', status = FINISHED, percentage = 100,
                   output_path = Some ''w/j1_20250101000000.mp4'',
                   download_url = Some ''/download/j1''\<rparr>"
    by (simp add: ex_defs op_defs)
  have r3: "reachable ex_local {} (create_task ''j3'' (ex_queued ex_local))"
    by (rule r_create [OF reachable_ex_queued]) (simp add: ex_defs op_defs)
  have e3: "tasks (create_task ''j3'' (ex_queued ex_local)) ''j3'' =
       Some \<lparr>video_path = [], status = UPLOADING, percentage = 0,
             output_path = None, download_url = None\<rparr>"
    by (simp add: create_task_def)
  from reachable_job_invariant [OF r] e
  have "(\<exists>t. tasks (ex_finished ex_local) ''j1'' = Some t \<and> output_path t \<noteq> None)
      \<and> (\<exists>t'. tasks (mark_task_error ''j1'' ''late'' (ex_finished ex_local)) ''j1'' = Some t'
          \<and> status t' = ERROR \<and> percentage t' = 0)"
    by simp
  with r e r3 e3 show ?thesis by simp
qed

text \<open>
  The claim C1 as written fails. A progress report of 100 is stored while the job is
  \<open>PROCESSING\<close>, so percentage 100 does not tell \<open>FINISHED\<close>; and \<open>mark_task_error\<close>
  on a \<open>FINISHED\<close> job leaves its output path in place, so an output path does not
  tell \<open>FINISHED\<close> either.
\<close>

theorem job_invariant_counterexample:
  "reachable ex_local {''j1''} (update_progress False ''j1'' 100 (ex_processing ex_local))
   \<and> map_option status (tasks (update_progress False ''j1'' 100 (ex_processing ex_local)) ''j1'')
       = Some PROCESSING
   \<and> map_option percentage (tasks (update_progress False ''j1'' 100 (ex_processing ex_local)) ''j1'')
       = Some 100
   \<and> reachable ex_local {''j1''} (mark_task_error ''j1'' ''late'' (ex_finished ex_local))
   \<and> map_option status (tasks (mark_task_error ''j1'' ''late'' (ex_finished ex_local)) ''j1'')
       = Some ERROR
   \<and> map_option output_path (tasks (mark_task_error ''j1'' ''late'' (ex_finished ex_local)) ''j1'')
       = Some (Some ''w/j1_20250101000000.mp4'')"
  by (simp add: r_progress r_mark reachable_ex_processing reachable_ex_finished)
     (simp add: ex_defs op_defs)

subsection \<open>A failing job and the loop\<close>

text \<open>
  C2 fails on the code. The remote backend, two jobs queued, and the temporary input
  name of the first too long for the file system: \<open>write_bytes\<close> raises in the
  \<open>try\<close> block, and in the handler \<open>exists()\<close>, which stands outside the inner
  \<open>try\<close>, raises again. The exception leaves the pass and the loop, the job is still
  \<open>PROCESSING\<close>, and the second job is never dequeued. And where the handler does
  run to its end, a progress update that commits after it leaves the job \<open>ERROR\<close> at
  its own value, not 0.
\<close>

theorem cleanup_failure_halts_worker:
  "queue (ex_queued2 ex_remote) =
     [(''j1'', ''uploads/j1_in.mp4''), (''j2'', ''uploads/j2_in.mp4'')]
   \<and> snd (snd (try_body ex_remote ex_env_long (''j1'', ''uploads/j1_in.mp4'')
                 ((ex_queued2 ex_remote)\<lparr>queue := [(''j2'', ''uploads/j2_in.mp4'')]\<rparr>)))
       = Some IOError
   \<and> snd (run_iteration ex_remote ex_env_long (ex_queued2 ex_remote)) = Some IOError
   \<and> map_option status
        (tasks (fst (run_iteration ex_remote ex_env_long (ex_queued2 ex_remote))) ''j1'')
       = Some PROCESSING
   \<and> snd (run ex_remote [ex_env_long, ex_env] (ex_queued2 ex_remote)) = Some IOError
   \<and> queue (fst (run ex_remote [ex_env_long, ex_env] (ex_queued2 ex_remote)))
       = [(''j2'', ''uploads/j2_in.mp4'')]
   \<and> map_option status
        (tasks (fst (run ex_remote [ex_env_long, ex_env] (ex_queued2 ex_remote))) ''j2'')
       = Some PROCESSING
   \<and> snd (run_iteration ex_remote (ex_env_fail\<lparr>late_reports := [(20, False)]\<rparr>)
             (ex_queued2 ex_remote)) = None
   \<and> tasks (fst (run_iteration ex_remote (ex_env_fail\<lparr>late_reports := [(20, False)]\<rparr>)
                    (ex_queued2 ex_remote))) ''j1''
       = Some \<lparr>video_path = ''uploads/j1_in.mp4'', status = ERROR, percentage = 20,
               output_path = None, download_url = None\<rparr>"
  by (simp add: ex_defs op_defs)

subsection \<open>Failures of progress reporting\<close>

text \<open>
  C6 fails on the code. A progress update that fails while it is applied is swallowed:
  nothing changes. But a failure of the marshaling itself, \<open>run_coroutine_threadsafe\<close>
  raising because the loop is closed, is raised by \<open>progress_callback\<close> into the
  processing operation.
\<close>

theorem marshaling_failure_propagates:
  "update_progress True ''j1'' 50 (ex_processing ex_local) = ex_processing ex_local
   \<and> progress_callback None = None
   \<and> progress_callback (Some (Failure ''RuntimeError: Event loop is closed''))
       = Some (Failure ''RuntimeError: Event loop is closed'')"
  by (simp add: update_progress_def progress_callback_def)

section \<open>Theorems about the storage backends\<close>

subsection \<open>Paths as strings and as components\<close>











subsection \<open>Resolution and creation of directories\<close>














subsection \<open>\<open>save\<close> of the local backend\<close>














subsection \<open>\<open>delete\<close>\<close>

text \<open>
  C5, as the code has it. On the remote backend \<open>delete\<close> of a reference that does not
  exist succeeds and leaves the bucket as it was.
\<close>

theorem gcs_delete_absent_noop:
  "\<not> gcs_exists bkt ref \<Longrightarrow>
     backend_delete (GCSStorageBackend bkt) ref = Inr (GCSStorageBackend bkt)"
  by (simp add: gcs_delete_def gcs_exists_def)

theorem gcs_delete_absent_noop_witness:
  "\<not> gcs_exists [''a'' \<mapsto> [1]] ''/b'' \<and>
   backend_delete (GCSStorageBackend [''a'' \<mapsto> [1]]) ''/b''
     = Inr (GCSStorageBackend [''a'' \<mapsto> [1]])"
proof -
  have h: "\<not> gcs_exists [''a'' \<mapsto> [1]] ''/b''"
    by (simp add: gcs_exists_def blob_exists_def lstrip_slash_def)
  show ?thesis using h gcs_delete_absent_noop [OF h] by simp
qed

text \<open>
  The claim C5 as written fails for the local backend: it has no \<open>delete\<close>, and the
  call on a reference that does not exist ends in \<open>AttributeError\<close>.
\<close>

theorem filesystem_delete_counterexample:
  "\<not> backend_exists (FilesystemStorageBackend Map.empty) ''missing.mp4'' \<and>
   backend_delete (FilesystemStorageBackend Map.empty) ''missing.mp4'' = Inl AttributeError"
  by (simp add: fs_exists_def os_path_exists_def os_stat_def components_def lookup_def)

subsection \<open>The remote backend and leading slashes\<close>

lemma lstrip_slash_idem: "lstrip_slash (lstrip_slash p) = lstrip_slash p"
  unfolding lstrip_slash_def by (induction p) auto

lemma lstrip_slash_Cons: "lstrip_slash (CHR ''/'' # r) = lstrip_slash r"
  by (simp add: lstrip_slash_def)

text \<open>
  C9. Every operation of the remote backend gives the same result on a reference and on
  the reference with its leading slashes stripped, and bytes saved under \<open>'/' + r\<close> are
  what \<open>read(r)\<close> returns.
\<close>

theorem gcs_leading_slash_irrelevant:
  "gcs_read bkt p = gcs_read bkt (lstrip_slash p)
   \<and> gcs_exists bkt p = gcs_exists bkt (lstrip_slash p)
   \<and> gcs_save bkt p d = gcs_save bkt (lstrip_slash p) d
   \<and> gcs_delete bkt p = gcs_delete bkt (lstrip_slash p)
   \<and> gcs_get_signed_url sign p ttl = gcs_get_signed_url sign (lstrip_slash p) ttl
   \<and> gcs_read (gcs_save bkt (CHR ''/'' # r) (Bytes B)) r = Inr B"
  by (simp add: gcs_read_def gcs_exists_def gcs_save_def gcs_delete_def blob_exists_def
      download_as_bytes_def gcs_get_signed_url_def lstrip_slash_idem lstrip_slash_Cons)

end
